theory Spec2Isabelle
  imports Main "HOL-Library.Word" "HOL-Library.AList"
begin

section \<open>Reflected types and interface values\<close>

text \<open>
  The binder of \<^verbatim>\<open>protocol/rest/server/rest_server.go\<close> inspects the declared argument
  types through Go's \<^verbatim>\<open>reflect\<close> package: \<^verbatim>\<open>Kind()\<close>, \<^verbatim>\<open>Elem()\<close>, \<^verbatim>\<open>String()\<close>,
  \<^verbatim>\<open>reflect.Zero\<close> and \<^verbatim>\<open>reflect.New\<close>. The types a service method can declare are
  modelled by a datatype: the basic types the binder coerces to, one further basic type
  (\<^verbatim>\<open>bool\<close>), the empty interface, pointers, slices, maps and named struct types
  (package and name).
\<close>

datatype kind = KBool | KInt | KInt32 | KInt64 | KInterface | KMap | KPtr | KSlice
  | KString | KStruct

datatype rtype = TBool | TInt | TInt32 | TInt64 | TString | TInterface
  | TPtr rtype | TSlice rtype | TMap rtype rtype | TStruct string string

fun Kind :: "rtype \<Rightarrow> kind" where
  "Kind TBool = KBool"
| "Kind TInt = KInt"
| "Kind TInt32 = KInt32"
| "Kind TInt64 = KInt64"
| "Kind TString = KString"
| "Kind TInterface = KInterface"
| "Kind (TPtr t) = KPtr"
| "Kind (TSlice t) = KSlice"
| "Kind (TMap k v) = KMap"
| "Kind (TStruct p n) = KStruct"

text \<open>\<^verbatim>\<open>if t.Kind() == reflect.Ptr { t = t.Elem() }\<close>: one level of pointer is removed.\<close>

fun deref :: "rtype \<Rightarrow> rtype" where
  "deref (TPtr t) = t"
| "deref t = t"

text \<open>\<^verbatim>\<open>t.String()\<close>, the textual form of a type.\<close>

fun type_String :: "rtype \<Rightarrow> string" where
  "type_String TBool = ''bool''"
| "type_String TInt = ''int''"
| "type_String TInt32 = ''int32''"
| "type_String TInt64 = ''int64''"
| "type_String TString = ''string''"
| "type_String TInterface = ''interface {}''"
| "type_String (TPtr t) = ''*'' @ type_String t"
| "type_String (TSlice t) = ''[]'' @ type_String t"
| "type_String (TMap k v) = ''map['' @ type_String k @ '']'' @ type_String v"
| "type_String (TStruct p n) = p @ ''.'' @ n"

text \<open>
  Values held in an \<^verbatim>\<open>interface{}\<close> slot. \<open>VNil\<close> is the untyped nil interface;
  \<open>VNilPtr\<close>, \<open>VNilSlice\<close> and \<open>VNilMap\<close> are the typed nil values of pointer, slice and
  map types; \<open>VZeroStruct\<close> is the zero value of a named struct; \<open>VPtr v\<close> is a non-nil
  pointer to a cell holding \<open>v\<close>. Go's \<^verbatim>\<open>int\<close> is taken as 64 bits wide.
\<close>

datatype val = VNil | VBool bool | VInt "64 word" | VInt32 "32 word" | VInt64 "64 word"
  | VStr string | VStrs "string list"
  | VNilPtr rtype | VNilSlice rtype | VNilMap rtype rtype | VZeroStruct string string
  | VPtr val
  | VMap "(string \<times> val) list" | VMaps "(string \<times> val) list list"
  | VStruct string string "(string \<times> val) list"

text \<open>\<^verbatim>\<open>reflect.Zero(t).Interface()\<close>.\<close>

fun zero_value :: "rtype \<Rightarrow> val" where
  "zero_value TBool = VBool False"
| "zero_value TInt = VInt 0"
| "zero_value TInt32 = VInt32 0"
| "zero_value TInt64 = VInt64 0"
| "zero_value TString = VStr []"
| "zero_value TInterface = VNil"
| "zero_value (TPtr t) = VNilPtr t"
| "zero_value (TSlice t) = VNilSlice t"
| "zero_value (TMap k v) = VNilMap k v"
| "zero_value (TStruct p n) = VZeroStruct p n"

text \<open>
  \<^verbatim>\<open>reflect.New(t).Interface()\<close>: a pointer to a freshly allocated zero value of \<open>t\<close>.
  (\<^verbatim>\<open>CanInterface\<close> holds for every value made by \<^verbatim>\<open>reflect.New\<close>.)
\<close>

definition new_instance :: "rtype \<Rightarrow> val" where
  "new_instance t = VPtr (zero_value t)"

section \<open>The standard library's decimal parser\<close>

text \<open>
  \<^verbatim>\<open>strconv.ParseInt(s, 10, bitSize)\<close> and \<^verbatim>\<open>strconv.Atoi\<close> belong to the Go standard
  library. They are modelled after their documented behaviour: an optional sign, then
  one or more decimal digits (the unsigned magnitude is kept as an unbounded integer and
  compared with the bounds of the width); a syntax error returns 0, a range error returns the nearest
  representable value; both return the error beside the value.
\<close>

datatype NumError = ErrSyntax | ErrRange

definition digit :: "char \<Rightarrow> int option" where
  "digit c = (if c \<in> set ''0123456789'' then Some (of_char c - 48) else None)"

fun parse_digits :: "int \<Rightarrow> int \<Rightarrow> string \<Rightarrow> int \<times> NumError option" where
  "parse_digits maxVal n [] = (n, None)"
| "parse_digits maxVal n (c # cs) =
     (case digit c of
        None \<Rightarrow> (0, Some ErrSyntax)
      | Some d \<Rightarrow>
          if maxVal < n * 10 + d then (maxVal, Some ErrRange)
          else parse_digits maxVal (n * 10 + d) cs)"

definition ParseUint :: "string \<Rightarrow> nat \<Rightarrow> int \<times> NumError option" where
  "ParseUint s bitSize =
     (if s = [] then (0, Some ErrSyntax) else parse_digits (2 ^ bitSize - 1) 0 s)"

definition ParseInt :: "string \<Rightarrow> nat \<Rightarrow> int \<times> NumError option" where
  "ParseInt s bitSize =
     (if s = [] then (0, Some ErrSyntax)
      else
        let neg = (hd s = CHR ''-'');
            s' = (if hd s = CHR ''+'' \<or> hd s = CHR ''-'' then tl s else s);
            cutoff = (2::int) ^ (bitSize - 1)
        in case ParseUint s' bitSize of
             (un, Some ErrSyntax) \<Rightarrow> (0, Some ErrSyntax)
           | (un, r) \<Rightarrow>
               if \<not> neg \<and> cutoff \<le> un then (cutoff - 1, Some ErrRange)
               else if neg \<and> cutoff < un then (- cutoff, Some ErrRange)
               else (if neg then - un else un, None))"

definition Atoi :: "string \<Rightarrow> int \<times> NumError option" where
  "Atoi s = ParseInt s 64"

section \<open>Diagnostics, request adapter and method configuration\<close>

text \<open>
  The calls to \<^verbatim>\<open>logger.Errorf\<close> and \<^verbatim>\<open>logger.Warnf\<close> are the only effect of the binder
  besides the argument list; they are collected, in order, in a list of diagnostics.
\<close>

datatype ReadError = ReadError string

datatype Source = SPath | SQuery | SHeader | SBody

datatype Reason = NoSuchArg int | WrongKind int | ParseFailed NumError | ReadFailed ReadError

datatype Diag = Errorf Source Reason | Warnf Source Reason

text \<open>
  \<^verbatim>\<open>RestServerRequest\<close>: the accessors the binder calls. \<open>ReadEntity\<close> takes the content
  of the decoding target and returns either an error or the content after decoding.
\<close>

record RestServerRequest =
  PathParameter :: "string \<Rightarrow> string"
  QueryParameter :: "string \<Rightarrow> string"
  QueryParameters :: "string \<Rightarrow> string list"
  HeaderParameter :: "string \<Rightarrow> string"
  ReadEntity :: "val \<Rightarrow> ReadError + val"

text \<open>
  \<^verbatim>\<open>RestMethodConfig\<close>: the three \<^verbatim>\<open>map[int]string\<close> fields and the body index. A Go map
  is ranged over in an unspecified order that may change from one loop to the next; a map
  is given here as the list of its entries in the order one \<^verbatim>\<open>range\<close> loop visits them,
  so the keys of a list that stands for a map are distinct.
\<close>

record RestMethodConfig =
  PathParamsMap :: "(int \<times> string) list"
  QueryParamsMap :: "(int \<times> string) list"
  HeadersMap :: "(int \<times> string) list"
  Body :: int

section \<open>Slices and loops\<close>

text \<open>Indexing a slice panics out of range; \<open>None\<close> is the panic.\<close>

definition index :: "'a list \<Rightarrow> int \<Rightarrow> 'a option" where
  "index xs k = (if 0 \<le> k \<and> k < int (length xs) then Some (xs ! nat k) else None)"

definition store :: "'a list \<Rightarrow> int \<Rightarrow> 'a \<Rightarrow> 'a list option" where
  "store xs k v = (if 0 \<le> k \<and> k < int (length xs) then Some (xs[nat k := v]) else None)"

text \<open>\<^verbatim>\<open>make([]interface{}, n)\<close> panics for a negative length.\<close>

definition make :: "int \<Rightarrow> val list option" where
  "make n = (if n < 0 then None else Some (replicate (nat n) VNil))"

text \<open>
  A \<^verbatim>\<open>for k, v := range m\<close> loop whose body may panic and may log: the body is run on the
  entries in turn, the state is threaded through, the diagnostics are concatenated.
\<close>

fun range_loop :: "('e \<Rightarrow> 's \<Rightarrow> ('s \<times> Diag list) option) \<Rightarrow> 'e list \<Rightarrow> 's
    \<Rightarrow> ('s \<times> Diag list) option" where
  "range_loop f [] s = Some (s, [])"
| "range_loop f (e # es) s =
     (case f e s of
        None \<Rightarrow> None
      | Some (s', d) \<Rightarrow>
          (case range_loop f es s' of
             None \<Rightarrow> None
           | Some (s'', d') \<Rightarrow> Some (s'', d @ d')))"

section \<open>The typed convention\<close>

text \<open>
  \<^verbatim>\<open>assembleArgsFromHeaders\<close>, one iteration: the header is read, the index is checked, the
  declared type is unwrapped and its kind decides.
\<close>

fun headers_step :: "RestServerRequest \<Rightarrow> int \<Rightarrow> rtype list \<Rightarrow> int \<times> string \<Rightarrow> val list
    \<Rightarrow> (val list \<times> Diag list) option" where
  "headers_step req argsLength argsTypes (k, v) args =
     (let param = HeaderParameter req v in
      if k < 0 \<or> argsLength \<le> k then Some (args, [Errorf SHeader (NoSuchArg k)])
      else
        case index argsTypes k of
          None \<Rightarrow> None
        | Some t0 \<Rightarrow>
            let t = (if Kind t0 = KPtr then deref t0 else t0) in
            if Kind t = KString then
              (case store args k (VStr param) of
                 None \<Rightarrow> None
               | Some args' \<Rightarrow> Some (args', []))
            else Some (args, [Errorf SHeader (WrongKind k)]))"

definition assembleArgsFromHeaders :: "RestMethodConfig \<Rightarrow> RestServerRequest \<Rightarrow> int
    \<Rightarrow> rtype list \<Rightarrow> val list \<Rightarrow> (val list \<times> Diag list) option" where
  "assembleArgsFromHeaders methodConfig req argsLength argsTypes args =
     range_loop (headers_step req argsLength argsTypes) (HeadersMap methodConfig) args"

text \<open>
  \<^verbatim>\<open>assembleArgsFromBody\<close>. The decoding target \<^verbatim>\<open>ni\<close> is chosen from the textual form
  of the unwrapped type: an empty slice of maps, an empty map, or a new instance.
\<close>

definition body_target :: "rtype \<Rightarrow> val" where
  "body_target t =
     (if type_String t = ''[]interface {}'' then VMaps []
      else if type_String t = ''interface {}'' then VMap []
      else new_instance t)"

definition assembleArgsFromBody :: "RestMethodConfig \<Rightarrow> rtype list \<Rightarrow> RestServerRequest
    \<Rightarrow> val list \<Rightarrow> (val list \<times> Diag list) option" where
  "assembleArgsFromBody methodConfig argsTypes req args =
     (if 0 \<le> Body methodConfig \<and> Body methodConfig < int (length argsTypes) then
        case index argsTypes (Body methodConfig) of
          None \<Rightarrow> None
        | Some t0 \<Rightarrow>
            let t = (if Kind t0 = KPtr then deref t0 else t0);
                ni = body_target t
            in case ReadEntity req ni of
                 Inl e \<Rightarrow> Some (args, [Errorf SBody (ReadFailed e)])
               | Inr w \<Rightarrow>
                   (case store args (Body methodConfig) w of
                      None \<Rightarrow> None
                    | Some args' \<Rightarrow> Some (args', []))
      else Some (args, []))"

text \<open>
  \<^verbatim>\<open>assembleArgsFromQueryParams\<close> and \<^verbatim>\<open>assembleArgsFromPathParams\<close> declare \<^verbatim>\<open>err\<close> and
  \<^verbatim>\<open>param\<close> before the loop, so both live across iterations: the loop state is the
  argument list, \<^verbatim>\<open>err\<close> and \<^verbatim>\<open>param\<close>. \<^verbatim>\<open>kind\<close> is read from the declared type before
  the pointer is removed and is not read again. (\<^verbatim>\<open>i64\<close> is also declared outside the
  loop, but it is written before each read.)
\<close>

type_synonym coerce_state = "val list \<times> NumError option \<times> val"

fun query_step :: "RestServerRequest \<Rightarrow> int \<Rightarrow> rtype list \<Rightarrow> int \<times> string \<Rightarrow> coerce_state
    \<Rightarrow> (coerce_state \<times> Diag list) option" where
  "query_step req argsLength argsTypes (k, v) (args, err, param) =
     (if k < 0 \<or> argsLength \<le> k then
        Some ((args, err, param), [Errorf SQuery (NoSuchArg k)])
      else
        case index argsTypes k of
          None \<Rightarrow> None
        | Some t0 \<Rightarrow>
            let kind = Kind t0;
                t = (if kind = KPtr then deref t0 else t0);
                r = (if kind = KSlice then Some (err, VStrs (QueryParameters req v))
                     else if kind = KString then Some (err, VStr (QueryParameter req v))
                     else if kind = KInt then
                       (case Atoi (QueryParameter req v) of
                          (n, e) \<Rightarrow> Some (e, VInt (word_of_int n)))
                     else if kind = KInt32 then
                       (case ParseInt (QueryParameter req v) 32 of
                          (i64, e) \<Rightarrow>
                            Some (e, if e = None then VInt32 (word_of_int i64) else param))
                     else if kind = KInt64 then
                       (case ParseInt (QueryParameter req v) 64 of
                          (n, e) \<Rightarrow> Some (e, VInt64 (word_of_int n)))
                     else None)
            in case r of
                 None \<Rightarrow> Some ((args, err, param), [Errorf SQuery (WrongKind k)])
               | Some (Some e, param') \<Rightarrow>
                   Some ((args, Some e, param'), [Errorf SQuery (ParseFailed e)])
               | Some (None, param') \<Rightarrow>
                   (case store args k param' of
                      None \<Rightarrow> None
                    | Some args' \<Rightarrow> Some ((args', None, param'), [])))"

definition assembleArgsFromQueryParams :: "RestMethodConfig \<Rightarrow> int \<Rightarrow> rtype list
    \<Rightarrow> RestServerRequest \<Rightarrow> val list \<Rightarrow> (val list \<times> Diag list) option" where
  "assembleArgsFromQueryParams methodConfig argsLength argsTypes req args =
     (case range_loop (query_step req argsLength argsTypes) (QueryParamsMap methodConfig)
             (args, None, VNil) of
        None \<Rightarrow> None
      | Some ((args', err, param), d) \<Rightarrow> Some (args', d))"

fun path_step :: "RestServerRequest \<Rightarrow> int \<Rightarrow> rtype list \<Rightarrow> int \<times> string \<Rightarrow> coerce_state
    \<Rightarrow> (coerce_state \<times> Diag list) option" where
  "path_step req argsLength argsTypes (k, v) (args, err, param) =
     (if k < 0 \<or> argsLength \<le> k then
        Some ((args, err, param), [Errorf SPath (NoSuchArg k)])
      else
        case index argsTypes k of
          None \<Rightarrow> None
        | Some t0 \<Rightarrow>
            let kind = Kind t0;
                t = (if kind = KPtr then deref t0 else t0);
                r = (if kind = KInt then
                       (case Atoi (PathParameter req v) of
                          (n, e) \<Rightarrow> Some (e, VInt (word_of_int n)))
                     else if kind = KInt32 then
                       (case ParseInt (PathParameter req v) 32 of
                          (i64, e) \<Rightarrow>
                            Some (e, if e = None then VInt32 (word_of_int i64) else param))
                     else if kind = KInt64 then
                       (case ParseInt (PathParameter req v) 64 of
                          (n, e) \<Rightarrow> Some (e, VInt64 (word_of_int n)))
                     else if kind = KString then Some (err, VStr (PathParameter req v))
                     else None)
            in case r of
                 None \<Rightarrow> Some ((args, err, param), [Warnf SPath (WrongKind k)])
               | Some (Some e, param') \<Rightarrow>
                   Some ((args, Some e, param'), [Errorf SPath (ParseFailed e)])
               | Some (None, param') \<Rightarrow>
                   (case store args k param' of
                      None \<Rightarrow> None
                    | Some args' \<Rightarrow> Some ((args', None, param'), [])))"

definition assembleArgsFromPathParams :: "RestMethodConfig \<Rightarrow> int \<Rightarrow> rtype list
    \<Rightarrow> RestServerRequest \<Rightarrow> val list \<Rightarrow> (val list \<times> Diag list) option" where
  "assembleArgsFromPathParams methodConfig argsLength argsTypes req args =
     (case range_loop (path_step req argsLength argsTypes) (PathParamsMap methodConfig)
             (args, None, VNil) of
        None \<Rightarrow> None
      | Some ((args', err, param), d) \<Rightarrow> Some (args', d))"

text \<open>\<^verbatim>\<open>getArgsFromRequest\<close>: the zero values, then the four passes.\<close>

definition getArgsFromRequest :: "RestServerRequest \<Rightarrow> rtype list \<Rightarrow> RestMethodConfig
    \<Rightarrow> (val list \<times> Diag list) option" where
  "getArgsFromRequest req argsTypes methodConfig =
     (let argsLength = int (length argsTypes);
          args = map zero_value argsTypes
      in case assembleArgsFromPathParams methodConfig argsLength argsTypes req args of
           None \<Rightarrow> None
         | Some (args1, d1) \<Rightarrow>
       (case assembleArgsFromQueryParams methodConfig argsLength argsTypes req args1 of
           None \<Rightarrow> None
         | Some (args2, d2) \<Rightarrow>
       (case assembleArgsFromBody methodConfig argsTypes req args2 of
           None \<Rightarrow> None
         | Some (args3, d3) \<Rightarrow>
       (case assembleArgsFromHeaders methodConfig req argsLength argsTypes args3 of
           None \<Rightarrow> None
         | Some (args4, d4) \<Rightarrow> Some (args4, d1 @ d2 @ d3 @ d4)))))"

section \<open>The generic convention\<close>

text \<open>
  \<^verbatim>\<open>getArgsInterfaceFromRequest\<close>. \<^verbatim>\<open>argsMap\<close> is a \<^verbatim>\<open>map[int]interface{}\<close>, kept as a list
  of entries with distinct keys; the three loops over the configuration update it and the
  running maximum \<^verbatim>\<open>maxKey\<close>. The indices are Go \<^verbatim>\<open>int\<close>s, taken as unbounded integers:
  \<^verbatim>\<open>maxKey + 1\<close> cannot wrap around for a slice that can be allocated.
\<close>

type_synonym generic_state = "(int \<times> val) list \<times> int"

fun generic_path_step :: "RestServerRequest \<Rightarrow> int \<times> string \<Rightarrow> generic_state
    \<Rightarrow> generic_state" where
  "generic_path_step req (k, v) (argsMap, maxKey) =
     (AList.update k (VStr (PathParameter req v)) argsMap, if maxKey < k then k else maxKey)"

fun generic_query_step :: "RestServerRequest \<Rightarrow> int \<times> string \<Rightarrow> generic_state
    \<Rightarrow> generic_state" where
  "generic_query_step req (k, v) (argsMap, maxKey) =
     (let params = QueryParameters req v in
      (AList.update k (if length params = 1 then VStr (params ! 0) else VStrs params) argsMap,
       if maxKey < k then k else maxKey))"

fun generic_header_step :: "RestServerRequest \<Rightarrow> int \<times> string \<Rightarrow> generic_state
    \<Rightarrow> generic_state" where
  "generic_header_step req (k, v) (argsMap, maxKey) =
     (AList.update k (VStr (HeaderParameter req v)) argsMap, if maxKey < k then k else maxKey)"

definition generic_body :: "RestServerRequest \<Rightarrow> int \<Rightarrow> generic_state
    \<Rightarrow> generic_state \<times> Diag list" where
  "generic_body req body st =
     (case st of (argsMap, maxKey) \<Rightarrow>
        if 0 \<le> body then
          (let maxKey' = (if maxKey < body then body else maxKey) in
           case ReadEntity req (VMap []) of
             Inl e \<Rightarrow> ((argsMap, maxKey'), [Warnf SBody (ReadFailed e)])
           | Inr m \<Rightarrow> ((AList.update body m argsMap, maxKey'), []))
        else ((argsMap, maxKey), []))"

text \<open>The last loop copies the entries with a non-negative key into the slice.\<close>

fun generic_fill_step :: "int \<times> val \<Rightarrow> val list \<Rightarrow> (val list \<times> Diag list) option" where
  "generic_fill_step (k, v) args =
     (if 0 \<le> k then
        (case store args k v of None \<Rightarrow> None | Some args' \<Rightarrow> Some (args', []))
      else Some (args, []))"

definition generic_collect :: "RestServerRequest \<Rightarrow> RestMethodConfig
    \<Rightarrow> generic_state \<times> Diag list" where
  "generic_collect req methodConfig =
     generic_body req (Body methodConfig)
       (fold (generic_header_step req) (HeadersMap methodConfig)
         (fold (generic_query_step req) (QueryParamsMap methodConfig)
           (fold (generic_path_step req) (PathParamsMap methodConfig) ([], 0))))"

definition getArgsInterfaceFromRequest :: "RestServerRequest \<Rightarrow> RestMethodConfig
    \<Rightarrow> (val list \<times> Diag list) option" where
  "getArgsInterfaceFromRequest req methodConfig =
     (case generic_collect req methodConfig of
        ((argsMap, maxKey), d) \<Rightarrow>
          (case make (maxKey + 1) of
             None \<Rightarrow> None
           | Some args \<Rightarrow>
               (case range_loop generic_fill_step argsMap args of
                  None \<Rightarrow> None
                | Some (args', d') \<Rightarrow> Some (args', d @ d'))))"

section \<open>Choosing the convention\<close>

text \<open>
  The part of \<^verbatim>\<open>GetRouteFunc\<close> that builds the arguments. \<^verbatim>\<open>&&\<close> binds tighter than
  \<^verbatim>\<open>||\<close> and both evaluate their right operand only when needed, so \<^verbatim>\<open>argsTypes[0]\<close> is
  read only when the length is 1 or 2.
\<close>

datatype Convention = Generic | Typed

definition select_convention :: "rtype list \<Rightarrow> rtype option \<Rightarrow> Convention option" where
  "select_convention argsTypes replyType =
     (if length argsTypes = 1 \<or> length argsTypes = 2 \<and> replyType = None then
        (case index argsTypes 0 of
           None \<Rightarrow> None
         | Some t \<Rightarrow> Some (if type_String t = ''[]interface {}'' then Generic else Typed))
      else Some Typed)"

definition route_args :: "RestServerRequest \<Rightarrow> rtype list \<Rightarrow> rtype option
    \<Rightarrow> RestMethodConfig \<Rightarrow> (val list \<times> Diag list) option" where
  "route_args req argsTypes replyType methodConfig =
     (case select_convention argsTypes replyType of
        None \<Rightarrow> None
      | Some Generic \<Rightarrow> getArgsInterfaceFromRequest req methodConfig
      | Some Typed \<Rightarrow> getArgsFromRequest req argsTypes methodConfig)"

section \<open>A concrete request\<close>

text \<open>
  A request with the path parameter \<open>id = 42\<close>, the query parameters \<open>n = abc\<close>,
  \<open>s = x\<close> and \<open>m = 2147483647\<close>, the header \<open>h = tok\<close> and a body that cannot be decoded;
  and the same request with a body that decodes.
\<close>

definition example_request :: RestServerRequest where
  "example_request =
     \<lparr>PathParameter = (\<lambda>name. if name = ''id'' then ''42'' else []),
      QueryParameter = (\<lambda>name. if name = ''n'' then ''abc'' else if name = ''s'' then ''x''
                          else if name = ''m'' then ''2147483647'' else []),
      QueryParameters = (\<lambda>name. if name = ''n'' then [''abc''] else if name = ''s'' then [''x'']
                          else if name = ''m'' then [''2147483647''] else []),
      HeaderParameter = (\<lambda>name. if name = ''h'' then ''tok'' else []),
      ReadEntity = (\<lambda>target. Inl (ReadError ''unexpected EOF''))\<rparr>"

definition example_user :: val where
  "example_user = VPtr (VStruct ''main'' ''User'' [(''Name'', VStr ''bob'')])"

definition example_request_with_body :: RestServerRequest where
  "example_request_with_body = example_request\<lparr>ReadEntity := (\<lambda>target. Inr example_user)\<rparr>"

section \<open>Notions used to state the properties\<close>








section \<open>Evaluation\<close>

lemmas typed_defs = getArgsFromRequest_def assembleArgsFromPathParams_def
  assembleArgsFromQueryParams_def assembleArgsFromBody_def assembleArgsFromHeaders_def
  body_target_def new_instance_def index_def store_def

lemmas generic_defs = getArgsInterfaceFromRequest_def generic_collect_def generic_body_def
  make_def index_def store_def

lemmas parse_defs = Atoi_def ParseInt_def ParseUint_def digit_def

lemmas example_defs = example_request_def example_request_with_body_def example_user_def

section \<open>The generic convention with no index\<close>

text \<open>
  C9. In the generic convention, when the three mappings are empty and the body index is
  negative, the result is the one-element list holding the untyped nil value, and nothing
  is logged: \<^verbatim>\<open>maxKey\<close> starts at 0 and the slice has \<^verbatim>\<open>maxKey + 1\<close> elements.
\<close>

theorem generic_no_index:
  assumes "PathParamsMap methodConfig = []" and "QueryParamsMap methodConfig = []"
    and "HeadersMap methodConfig = []" and "Body methodConfig < 0"
  shows "getArgsInterfaceFromRequest req methodConfig = Some ([VNil], [])"
  using assms by (simp add: generic_defs)

theorem generic_no_index_witness:
  "getArgsInterfaceFromRequest example_request
     \<lparr>PathParamsMap = [], QueryParamsMap = [], HeadersMap = [], Body = - 1\<rparr>
   = Some ([VNil], [])"
  using generic_no_index [of "\<lparr>PathParamsMap = [], QueryParamsMap = [], HeadersMap = [],
    Body = - 1\<rparr>" example_request]
  by simp

section \<open>Pointer-wrapped slots in the path and query passes\<close>

text \<open>
  C1. The claim is that a pointer-wrapped path or query slot is coerced by the kind of the
  unwrapped type. Both passes read \<^verbatim>\<open>kind\<close> before the pointer is removed and branch on
  that value, so a slot declared \<^verbatim>\<open>*string\<close> or \<^verbatim>\<open>*int32\<close> falls into the last branch:
  with \<open>id = 42\<close> mapped to a \<^verbatim>\<open>*string\<close> slot and \<open>m = 2147483647\<close> mapped to a
  \<^verbatim>\<open>*int32\<close> slot, both slots keep their nil pointers and both are reported as being of a
  wrong kind.
\<close>

theorem pointer_slots_rejected_by_path_and_query:
  "getArgsFromRequest example_request [TPtr TString, TPtr TInt32]
     \<lparr>PathParamsMap = [(0, ''id'')], QueryParamsMap = [(1, ''m'')], HeadersMap = [],
      Body = - 1\<rparr>
   = Some ([VNilPtr TString, VNilPtr TInt32],
           [Warnf SPath (WrongKind 0), Errorf SQuery (WrongKind 1)])"
  by (simp add: typed_defs example_defs)

section \<open>A failed parse and the slots after it\<close>

text \<open>
  C7. The value \<open>2147483647\<close> of an \<^verbatim>\<open>int32\<close> query slot is bound, and \<open>abc\<close> leaves
  the slot at zero with a diagnostic. But \<^verbatim>\<open>err\<close> is declared outside the loop and the
  string branch does not assign it: when the loop visits the \<^verbatim>\<open>int32\<close> slot first, the
  string slot after it finds the old error, is reported as a parse failure and stays
  empty, although its query value is \<open>x\<close>.
\<close>

theorem failed_parse_blocks_later_string_slot:
  "getArgsFromRequest example_request [TInt32, TString]
     \<lparr>PathParamsMap = [], QueryParamsMap = [(0, ''n''), (1, ''s'')], HeadersMap = [],
      Body = - 1\<rparr>
   = Some ([VInt32 0, VStr []],
           [Errorf SQuery (ParseFailed ErrSyntax), Errorf SQuery (ParseFailed ErrSyntax)])"
  by (simp add: typed_defs example_defs parse_defs)

text \<open>The first half of the claim: both slots are bound when the integer parses.\<close>

lemma int32_query_slot_bound:
  "getArgsFromRequest example_request [TInt32, TString]
     \<lparr>PathParamsMap = [], QueryParamsMap = [(0, ''m''), (1, ''s'')], HeadersMap = [],
      Body = - 1\<rparr>
   = Some ([VInt32 2147483647, VStr ''x''], [])"
  by (simp add: typed_defs example_defs parse_defs)

section \<open>The order of a map's entries\<close>

text \<open>
  C8. Two \<^verbatim>\<open>range\<close> loops over the same query mapping \<open>{0: n, 1: s}\<close> may visit its
  entries in either order. With \<open>n = abc\<close> for an \<^verbatim>\<open>int\<close> slot and \<open>s = x\<close> for a string
  slot, the order 0, 1 leaves the string slot empty and the order 1, 0 binds it: the two
  argument lists differ.
\<close>

theorem typed_binding_depends_on_map_order:
  "map_option fst (getArgsFromRequest example_request [TInt, TString]
     \<lparr>PathParamsMap = [], QueryParamsMap = [(0, ''n''), (1, ''s'')], HeadersMap = [],
      Body = - 1\<rparr>) = Some [VInt 0, VStr []]
   \<and> map_option fst (getArgsFromRequest example_request [TInt, TString]
     \<lparr>PathParamsMap = [], QueryParamsMap = [(1, ''s''), (0, ''n'')], HeadersMap = [],
      Body = - 1\<rparr>) = Some [VInt 0, VStr ''x'']"
  by (simp add: typed_defs example_defs parse_defs)

section \<open>Textual forms of types\<close>

lemma unwrap_deref: "(if Kind t = KPtr then deref t else t) = deref t"
  by (cases t) simp_all

lemma struct_name_dotted: "CHR ''.'' \<in> set (type_String (TStruct p n))"
  by simp

lemma struct_name_neq:
  "type_String (TStruct p n) \<noteq> ''interface {}''"
  "type_String (TStruct p n) \<noteq> ''[]interface {}''"
proof -
  show "type_String (TStruct p n) \<noteq> ''interface {}''"
  proof
    assume eq: "type_String (TStruct p n) = ''interface {}''"
    from struct_name_dotted [of p n] show False unfolding eq by simp
  qed
  show "type_String (TStruct p n) \<noteq> ''[]interface {}''"
  proof
    assume eq: "type_String (TStruct p n) = ''[]interface {}''"
    from struct_name_dotted [of p n] show False unfolding eq by simp
  qed
qed

lemma type_String_interface: "type_String t = ''interface {}'' \<longleftrightarrow> t = TInterface"
  using struct_name_neq(1) by (cases t) (auto simp del: type_String.simps(10) simp: type_String.simps(1-9))

lemma type_String_slice_interface:
  "type_String t = ''[]interface {}'' \<longleftrightarrow> t = TSlice TInterface"
  using struct_name_neq(2)
  by (cases t) (auto simp del: type_String.simps(10) simp: type_String_interface)


section \<open>The choice of the convention\<close>

text \<open>
  C3. The generic convention is chosen exactly when the first declared argument type is
  \<^verbatim>\<open>[]interface {}\<close> and there is either one argument, or two arguments and no reply type;
  in every other case, the empty signature included, the typed convention is chosen, and
  the choice never panics.
\<close>

theorem convention_selected:
  "select_convention argsTypes replyType =
     Some (if (\<exists>rest. argsTypes = TSlice TInterface # rest)
              \<and> (length argsTypes = 1 \<or> length argsTypes = 2 \<and> replyType = None)
           then Generic else Typed)"
proof (cases argsTypes)
  case Nil
  then show ?thesis by (simp add: select_convention_def)
next
  case (Cons t rest)
  then show ?thesis
    by (simp add: select_convention_def index_def type_String_slice_interface)
qed


section \<open>Loops over the entries of a map\<close>

lemma range_loop_inv:
  assumes "I s"
    and "\<And>e s. e \<in> set es \<Longrightarrow> I s \<Longrightarrow> \<exists>s' d. f e s = Some (s', d) \<and> I s'"
  shows "\<exists>s' d. range_loop f es s = Some (s', d) \<and> I s'"
  using assms
proof (induction es arbitrary: s)
  case Nil
  then show ?case by simp
next
  case (Cons e es)
  from Cons.prems obtain s1 d1 where 1: "f e s = Some (s1, d1)" "I s1"
    by (meson list.set_intros(1))
  from Cons.IH [OF 1(2)] Cons.prems(2) obtain s2 d2
    where 2: "range_loop f es s1 = Some (s2, d2)" "I s2"
    by (meson list.set_intros(2))
  from 1 2 show ?case by simp
qed

lemma range_loop_append:
  "range_loop f (xs @ ys) s =
     (case range_loop f xs s of
        None \<Rightarrow> None
      | Some (s', d) \<Rightarrow>
          (case range_loop f ys s' of
             None \<Rightarrow> None
           | Some (s'', d') \<Rightarrow> Some (s'', d @ d')))"
  by (induction xs arbitrary: s) (auto split: option.splits)

lemma range_loop_diag:
  assumes "range_loop f es s = Some (s', d)" and "e \<in> set es"
    and "\<And>s s1 d1. f e s = Some (s1, d1) \<Longrightarrow> x \<in> set d1"
  shows "x \<in> set d"
  using assms
proof (induction es arbitrary: s d)
  case Nil
  then show ?case by simp
next
  case (Cons a es)
  then show ?case
    by (fastforce split: option.splits)
qed



lemma range_loop_last_write:
  assumes "I s"
    and "\<And>x s. x \<in> set pre \<Longrightarrow> I s \<Longrightarrow> \<exists>s' d. f x s = Some (s', d) \<and> I s'"
    and "\<And>s. I s \<Longrightarrow> \<exists>s' d. f e s = Some (s', d) \<and> J s'"
    and "\<And>x s. x \<in> set post \<Longrightarrow> J s \<Longrightarrow> \<exists>s' d. f x s = Some (s', d) \<and> J s'"
  shows "\<exists>s' d. range_loop f (pre @ e # post) s = Some (s', d) \<and> J s'"
proof -
  from range_loop_inv [of I s pre f, OF assms(1,2)] obtain s1 d1
    where 1: "range_loop f pre s = Some (s1, d1)" "I s1" by blast
  from assms(3) [OF 1(2)] obtain s2 d2 where 2: "f e s1 = Some (s2, d2)" "J s2" by blast
  from range_loop_inv [of J s2 post f, OF 2(2) assms(4)] obtain s3 d3
    where 3: "range_loop f post s2 = Some (s3, d3)" "J s3" by blast
  from 1 2 3 show ?thesis by (simp add: range_loop_append)
qed

section \<open>One iteration of each pass\<close>

lemma index_Some: "index xs k = Some x \<longleftrightarrow> 0 \<le> k \<and> k < int (length xs) \<and> x = xs ! nat k"
  by (auto simp: index_def)

lemma store_Some:
  "store xs k v = Some ys \<longleftrightarrow> 0 \<le> k \<and> k < int (length xs) \<and> ys = xs[nat k := v]"
  by (auto simp: store_def)

lemma headers_step_total:
  assumes "length args = length tys"
  shows "\<exists>args' d. headers_step req (int (length tys)) tys e args = Some (args', d)
           \<and> length args' = length tys"
  using assms by (cases e) (auto simp: index_def store_def Let_def)

lemma headers_step_frame:
  assumes "headers_step req n tys (k, v) args = Some (args', d)"
    and "int i \<noteq> k \<or> Kind (deref (tys ! i)) \<noteq> KString"
  shows "args' ! i = args ! i"
  using assms
  by (cases "i = nat k")
    (auto simp: index_Some store_Some Let_def unwrap_deref split: if_splits option.splits)

lemma headers_step_write:
  assumes "0 \<le> k" and "k < int (length tys)" and "length args = length tys"
    and "Kind (deref (tys ! nat k)) = KString"
  shows "headers_step req (int (length tys)) tys (k, v) args
           = Some (args[nat k := VStr (HeaderParameter req v)], [])"
  using assms by (simp add: index_def store_def Let_def unwrap_deref)

lemma query_step_total:
  assumes "length args = length tys"
  shows "\<exists>args' err' param' d.
           query_step req (int (length tys)) tys e (args, err, param)
             = Some ((args', err', param'), d) \<and> length args' = length tys"
  using assms
  by (cases e) (auto simp: index_def store_def Let_def split: prod.splits option.splits)

lemma query_step_frame:
  assumes "query_step req n tys (k, v) (args, err, param) = Some ((args', err', param'), d)"
    and "int i \<noteq> k \<or> Kind (tys ! i) \<notin> {KSlice, KString, KInt, KInt32, KInt64}"
  shows "args' ! i = args ! i"
  using assms
  by (cases "i = nat k")
    (auto simp: index_Some store_Some Let_def split: if_splits option.splits prod.splits)

lemma path_step_total:
  assumes "length args = length tys"
  shows "\<exists>args' err' param' d.
           path_step req (int (length tys)) tys e (args, err, param)
             = Some ((args', err', param'), d) \<and> length args' = length tys"
  using assms
  by (cases e) (auto simp: index_def store_def Let_def split: prod.splits option.splits)

lemma path_step_frame:
  assumes "path_step req n tys (k, v) (args, err, param) = Some ((args', err', param'), d)"
    and "int i \<noteq> k \<or> Kind (tys ! i) \<notin> {KString, KInt, KInt32, KInt64}"
  shows "args' ! i = args ! i"
  using assms
  by (cases "i = nat k")
    (auto simp: index_Some store_Some Let_def split: if_splits option.splits prod.splits)

section \<open>The header pass\<close>

lemma headers_step_inv:
  assumes "length a = length tys" and "a ! i = x"
    and "int i \<noteq> fst e \<or> Kind (deref (tys ! i)) \<noteq> KString"
  shows "\<exists>a' d. headers_step req (int (length tys)) tys e a = Some (a', d)
           \<and> length a' = length tys \<and> a' ! i = x"
proof -
  obtain k v where e: "e = (k, v)" by (cases e)
  from headers_step_total [OF assms(1), of req e] obtain a' d
    where 1: "headers_step req (int (length tys)) tys e a = Some (a', d)"
      "length a' = length tys" by blast
  from headers_step_frame [OF 1(1) [unfolded e], of i] assms(2,3) e have "a' ! i = x" by simp
  with 1 show ?thesis by blast
qed

lemma headers_total:
  assumes "length args = length tys"
  shows "\<exists>args' d. assembleArgsFromHeaders cfg req (int (length tys)) tys args = Some (args', d)
           \<and> length args' = length tys"
  unfolding assembleArgsFromHeaders_def
  by (rule range_loop_inv [where I = "\<lambda>a. length a = length tys"])
    (use assms headers_step_total in auto)

lemma headers_frame:
  assumes "length args = length tys"
    and "int i \<notin> fst ` set (HeadersMap cfg) \<or> Kind (deref (tys ! i)) \<noteq> KString"
  shows "\<exists>args' d. assembleArgsFromHeaders cfg req (int (length tys)) tys args = Some (args', d)
           \<and> length args' = length tys \<and> args' ! i = args ! i"
  unfolding assembleArgsFromHeaders_def
proof (rule range_loop_inv [where I = "\<lambda>a. length a = length tys \<and> a ! i = args ! i"])
  show "length args = length tys \<and> args ! i = args ! i" using assms by simp
next
  fix e a
  assume "e \<in> set (HeadersMap cfg)" and "length a = length tys \<and> a ! i = args ! i"
  with assms(2) show "\<exists>s' d. headers_step req (int (length tys)) tys e a = Some (s', d)
      \<and> length s' = length tys \<and> s' ! i = args ! i"
    by (intro headers_step_inv) auto
qed

lemma headers_write:
  assumes len: "length args = length tys"
    and dist: "distinct (map fst (HeadersMap cfg))"
    and mem: "(k, v) \<in> set (HeadersMap cfg)"
    and rng: "0 \<le> k" "k < int (length tys)"
    and str: "Kind (deref (tys ! nat k)) = KString"
  shows "\<exists>args' d. assembleArgsFromHeaders cfg req (int (length tys)) tys args = Some (args', d)
           \<and> length args' = length tys \<and> args' ! nat k = VStr (HeaderParameter req v)"
proof -
  from mem obtain pre post where sp: "HeadersMap cfg = pre @ (k, v) # post"
    by (meson split_list)
  with dist have post: "k \<notin> fst ` set post" by auto
  let ?w = "VStr (HeaderParameter req v)"
  have "\<exists>s' d. range_loop (headers_step req (int (length tys)) tys) (pre @ (k, v) # post) args
          = Some (s', d) \<and> (length s' = length tys \<and> s' ! nat k = ?w)"
  proof (rule range_loop_last_write [where I = "\<lambda>a. length a = length tys"])
    show "length args = length tys" by (rule len)
  next
    fix x and s :: "val list" assume "length s = length tys"
    then show "\<exists>s' d. headers_step req (int (length tys)) tys x s = Some (s', d)
        \<and> length s' = length tys"
      by (rule headers_step_total)
  next
    fix s :: "val list" assume "length s = length tys"
    with rng str show "\<exists>s' d. headers_step req (int (length tys)) tys (k, v) s = Some (s', d)
        \<and> length s' = length tys \<and> s' ! nat k = ?w"
      by (simp add: headers_step_write del: headers_step.simps)
  next
    fix x and s :: "val list"
    assume "x \<in> set post" and "length s = length tys \<and> s ! nat k = ?w"
    with post rng show "\<exists>s' d. headers_step req (int (length tys)) tys x s = Some (s', d)
        \<and> length s' = length tys \<and> s' ! nat k = ?w"
      by (intro headers_step_inv) auto
  qed
  then show ?thesis by (simp add: assembleArgsFromHeaders_def sp)
qed

lemma headers_diag:
  assumes "assembleArgsFromHeaders cfg req (int (length tys)) tys args = Some (args', d)"
    and "(k, v) \<in> set (HeadersMap cfg)"
  shows "k < 0 \<or> int (length tys) \<le> k \<Longrightarrow> Errorf SHeader (NoSuchArg k) \<in> set d"
    and "0 \<le> k \<Longrightarrow> k < int (length tys) \<Longrightarrow> Kind (deref (tys ! nat k)) \<noteq> KString
      \<Longrightarrow> Errorf SHeader (WrongKind k) \<in> set d"
proof -
  assume "k < 0 \<or> int (length tys) \<le> k"
  then show "Errorf SHeader (NoSuchArg k) \<in> set d"
    using assms unfolding assembleArgsFromHeaders_def
    by (elim range_loop_diag) auto
next
  assume "0 \<le> k" "k < int (length tys)" "Kind (deref (tys ! nat k)) \<noteq> KString"
  then show "Errorf SHeader (WrongKind k) \<in> set d"
    using assms unfolding assembleArgsFromHeaders_def
    by (elim range_loop_diag) (auto simp: index_def Let_def unwrap_deref)
qed

text \<open>
  C6. The header pass on an argument list as long as the signature never panics and keeps
  the length; a slot whose declared type, with one level of pointer removed, is not of
  kind String is left as it was, whatever the header mapping and the header values are,
  and each in-range header entry aimed at such a slot is reported with a diagnostic. A
  header entry aimed at a slot of (unwrapped) kind String writes the header value.
\<close>

theorem header_pass_string_only:
  assumes len: "length args = length argsTypes"
  shows "\<exists>args' d.
     assembleArgsFromHeaders methodConfig req (int (length argsTypes)) argsTypes args
       = Some (args', d)
     \<and> length args' = length args
     \<and> (\<forall>i<length argsTypes. Kind (deref (argsTypes ! i)) \<noteq> KString \<longrightarrow> args' ! i = args ! i)
     \<and> (\<forall>(k, v)\<in>set (HeadersMap methodConfig).
          0 \<le> k \<and> k < int (length argsTypes) \<and> Kind (deref (argsTypes ! nat k)) \<noteq> KString
          \<longrightarrow> Errorf SHeader (WrongKind k) \<in> set d)
     \<and> (distinct (map fst (HeadersMap methodConfig)) \<longrightarrow>
          (\<forall>(k, v)\<in>set (HeadersMap methodConfig).
             0 \<le> k \<and> k < int (length argsTypes) \<and> Kind (deref (argsTypes ! nat k)) = KString
             \<longrightarrow> args' ! nat k = VStr (HeaderParameter req v)))"
proof -
  let ?run = "assembleArgsFromHeaders methodConfig req (int (length argsTypes)) argsTypes args"
  from headers_total [OF len] obtain args' d
    where run: "?run = Some (args', d)" and len': "length args' = length argsTypes"
    by blast
  have frame: "args' ! i = args ! i" if "Kind (deref (argsTypes ! i)) \<noteq> KString" for i
    using headers_frame [OF len, of i methodConfig req] that run by auto
  have diag: "Errorf SHeader (WrongKind k) \<in> set d"
    if "(k, v) \<in> set (HeadersMap methodConfig)" "0 \<le> k" "k < int (length argsTypes)"
      "Kind (deref (argsTypes ! nat k)) \<noteq> KString" for k v
    using headers_diag(2) [OF run that] .
  have "write": "args' ! nat k = VStr (HeaderParameter req v)"
    if "distinct (map fst (HeadersMap methodConfig))"
      "(k, v) \<in> set (HeadersMap methodConfig)" "0 \<le> k" "k < int (length argsTypes)"
      "Kind (deref (argsTypes ! nat k)) = KString" for k v
    using headers_write [OF len that, of req] run by auto
  from run len len' frame diag "write" show ?thesis by auto
qed

theorem header_pass_string_only_witness:
  "assembleArgsFromHeaders
     \<lparr>PathParamsMap = [], QueryParamsMap = [],
      HeadersMap = [(0, ''h''), (1, ''h''), (2, ''h'')], Body = - 1\<rparr>
     example_request 3 [TInt32, TString, TPtr TString] [VInt32 0, VStr [], VNilPtr TString]
   = Some ([VInt32 0, VStr ''tok'', VStr ''tok''], [Errorf SHeader (WrongKind 0)])"
  using header_pass_string_only [of "[VInt32 0, VStr [], VNilPtr TString]"
    "[TInt32, TString, TPtr TString]"
    "\<lparr>PathParamsMap = [], QueryParamsMap = [],
      HeadersMap = [(0, ''h''), (1, ''h''), (2, ''h'')], Body = - 1\<rparr>" example_request]
  by (simp add: typed_defs example_defs)

section \<open>The path and query passes\<close>

lemma query_step_inv:
  assumes "length a = length tys" and "a ! i = x"
    and "int i \<noteq> fst e \<or> Kind (tys ! i) \<notin> {KSlice, KString, KInt, KInt32, KInt64}"
  shows "\<exists>s' d. query_step req (int (length tys)) tys e (a, err, p) = Some (s', d)
           \<and> length (fst s') = length tys \<and> fst s' ! i = x"
proof -
  obtain k v where e: "e = (k, v)" by (cases e)
  from query_step_total [OF assms(1), of req e err p] obtain a' err' p' d
    where 1: "query_step req (int (length tys)) tys e (a, err, p) = Some ((a', err', p'), d)"
      "length a' = length tys" by blast
  from query_step_frame [OF 1(1) [unfolded e], of i] assms(2,3) e have "a' ! i = x" by simp
  with 1 show ?thesis by auto
qed

lemma path_step_inv:
  assumes "length a = length tys" and "a ! i = x"
    and "int i \<noteq> fst e \<or> Kind (tys ! i) \<notin> {KString, KInt, KInt32, KInt64}"
  shows "\<exists>s' d. path_step req (int (length tys)) tys e (a, err, p) = Some (s', d)
           \<and> length (fst s') = length tys \<and> fst s' ! i = x"
proof -
  obtain k v where e: "e = (k, v)" by (cases e)
  from path_step_total [OF assms(1), of req e err p] obtain a' err' p' d
    where 1: "path_step req (int (length tys)) tys e (a, err, p) = Some ((a', err', p'), d)"
      "length a' = length tys" by blast
  from path_step_frame [OF 1(1) [unfolded e], of i] assms(2,3) e have "a' ! i = x" by simp
  with 1 show ?thesis by auto
qed


lemma query_frame:
  assumes "length args = length tys"
    and "int i \<notin> fst ` set (QueryParamsMap cfg)
         \<or> Kind (tys ! i) \<notin> {KSlice, KString, KInt, KInt32, KInt64}"
  shows "\<exists>args' d. assembleArgsFromQueryParams cfg (int (length tys)) tys req args
             = Some (args', d)
           \<and> length args' = length tys \<and> args' ! i = args ! i"
proof -
  have "\<exists>s' d. range_loop (query_step req (int (length tys)) tys) (QueryParamsMap cfg)
            (args, None, VNil) = Some (s', d)
          \<and> (length (fst s') = length tys \<and> fst s' ! i = args ! i)"
  proof (rule range_loop_inv
      [where I = "\<lambda>s. length (fst s) = length tys \<and> fst s ! i = args ! i"])
    show "length (fst (args, None, VNil)) = length tys
        \<and> fst (args, None, VNil) ! i = args ! i"
      using assms by simp
  next
    fix e and s :: coerce_state
    assume e: "e \<in> set (QueryParamsMap cfg)"
      and s: "length (fst s) = length tys \<and> fst s ! i = args ! i"
    obtain a err p where s': "s = (a, err, p)" by (cases s)
    from s s' have la: "length a = length tys" and ai: "a ! i = args ! i" by simp_all
    from e assms(2) have c: "int i \<noteq> fst e \<or> Kind (tys ! i) \<notin> {KSlice, KString, KInt, KInt32, KInt64}"
      by force
    show "\<exists>s' d. query_step req (int (length tys)) tys e s = Some (s', d)
        \<and> length (fst s') = length tys \<and> fst s' ! i = args ! i"
      unfolding s' by (rule query_step_inv [OF la ai c])
  qed
  then show ?thesis
    by (auto simp: assembleArgsFromQueryParams_def)
qed

lemma query_total:
  assumes "length args = length tys"
  shows "\<exists>args' d. assembleArgsFromQueryParams cfg (int (length tys)) tys req args
             = Some (args', d) \<and> length args' = length tys"
proof -
  have "\<exists>s' d. range_loop (query_step req (int (length tys)) tys) (QueryParamsMap cfg)
            (args, None, VNil) = Some (s', d) \<and> length (fst s') = length tys"
  proof (rule range_loop_inv [where I = "\<lambda>s. length (fst s) = length tys"])
    show "length (fst (args, None, VNil)) = length tys"
      using assms by simp
  next
    fix e and s :: coerce_state
    assume s: "length (fst s) = length tys"
    obtain a err p where "s = (a, err, p)" by (cases s)
    with s query_step_total [of a tys req e err p]
    show "\<exists>s' d. query_step req (int (length tys)) tys e s = Some (s', d)
        \<and> length (fst s') = length tys"
      by (auto simp del: query_step.simps)
  qed
  then show ?thesis
    by (auto simp: assembleArgsFromQueryParams_def)
qed

lemma path_frame:
  assumes "length args = length tys"
    and "int i \<notin> fst ` set (PathParamsMap cfg)
         \<or> Kind (tys ! i) \<notin> {KString, KInt, KInt32, KInt64}"
  shows "\<exists>args' d. assembleArgsFromPathParams cfg (int (length tys)) tys req args
             = Some (args', d)
           \<and> length args' = length tys \<and> args' ! i = args ! i"
proof -
  have "\<exists>s' d. range_loop (path_step req (int (length tys)) tys) (PathParamsMap cfg)
            (args, None, VNil) = Some (s', d)
          \<and> (length (fst s') = length tys \<and> fst s' ! i = args ! i)"
  proof (rule range_loop_inv
      [where I = "\<lambda>s. length (fst s) = length tys \<and> fst s ! i = args ! i"])
    show "length (fst (args, None, VNil)) = length tys
        \<and> fst (args, None, VNil) ! i = args ! i"
      using assms by simp
  next
    fix e and s :: coerce_state
    assume e: "e \<in> set (PathParamsMap cfg)"
      and s: "length (fst s) = length tys \<and> fst s ! i = args ! i"
    obtain a err p where s': "s = (a, err, p)" by (cases s)
    from s s' have la: "length a = length tys" and ai: "a ! i = args ! i" by simp_all
    from e assms(2) have c: "int i \<noteq> fst e \<or> Kind (tys ! i) \<notin> {KString, KInt, KInt32, KInt64}"
      by force
    show "\<exists>s' d. path_step req (int (length tys)) tys e s = Some (s', d)
        \<and> length (fst s') = length tys \<and> fst s' ! i = args ! i"
      unfolding s' by (rule path_step_inv [OF la ai c])
  qed
  then show ?thesis
    by (auto simp: assembleArgsFromPathParams_def)
qed

lemma path_total:
  assumes "length args = length tys"
  shows "\<exists>args' d. assembleArgsFromPathParams cfg (int (length tys)) tys req args
             = Some (args', d) \<and> length args' = length tys"
proof -
  have "\<exists>s' d. range_loop (path_step req (int (length tys)) tys) (PathParamsMap cfg)
            (args, None, VNil) = Some (s', d) \<and> length (fst s') = length tys"
  proof (rule range_loop_inv [where I = "\<lambda>s. length (fst s) = length tys"])
    show "length (fst (args, None, VNil)) = length tys"
      using assms by simp
  next
    fix e and s :: coerce_state
    assume s: "length (fst s) = length tys"
    obtain a err p where "s = (a, err, p)" by (cases s)
    with s path_step_total [of a tys req e err p]
    show "\<exists>s' d. path_step req (int (length tys)) tys e s = Some (s', d)
        \<and> length (fst s') = length tys"
      by (auto simp del: path_step.simps)
  qed
  then show ?thesis
    by (auto simp: assembleArgsFromPathParams_def)
qed











section \<open>The body pass\<close>

lemma body_total:
  assumes "length args = length tys"
  shows "\<exists>args' d. assembleArgsFromBody cfg tys req args = Some (args', d)
           \<and> length args' = length tys"
  using assms
  by (auto simp: assembleArgsFromBody_def index_def store_def Let_def split: sum.splits)


lemma body_write:
  assumes "0 \<le> Body cfg" and "Body cfg < int (length tys)" and "length args = length tys"
    and "ReadEntity req (body_target (deref (tys ! nat (Body cfg)))) = Inr w"
  shows "assembleArgsFromBody cfg tys req args = Some (args[nat (Body cfg) := w], [])"
  using assms
  by (simp add: assembleArgsFromBody_def index_def store_def Let_def unwrap_deref)

lemma body_fail:
  assumes "0 \<le> Body cfg" and "Body cfg < int (length tys)"
    and "ReadEntity req (body_target (deref (tys ! nat (Body cfg)))) = Inl e"
  shows "assembleArgsFromBody cfg tys req args = Some (args, [Errorf SBody (ReadFailed e)])"
  using assms
  by (simp add: assembleArgsFromBody_def index_def Let_def unwrap_deref)

section \<open>The four passes together\<close>

lemma typed_passes:
  "\<exists>a1 d1 a2 d2 a3 d3 a4 d4.
     assembleArgsFromPathParams cfg (int (length tys)) tys req (map zero_value tys)
       = Some (a1, d1) \<and> length a1 = length tys
     \<and> assembleArgsFromQueryParams cfg (int (length tys)) tys req a1 = Some (a2, d2)
     \<and> length a2 = length tys
     \<and> assembleArgsFromBody cfg tys req a2 = Some (a3, d3) \<and> length a3 = length tys
     \<and> assembleArgsFromHeaders cfg req (int (length tys)) tys a3 = Some (a4, d4)
     \<and> length a4 = length tys
     \<and> getArgsFromRequest req tys cfg = Some (a4, d1 @ d2 @ d3 @ d4)"
proof -
  have 0: "length (map zero_value tys) = length tys" by simp
  from path_total [OF 0, of cfg req] obtain a1 d1 where
    1: "assembleArgsFromPathParams cfg (int (length tys)) tys req (map zero_value tys)
         = Some (a1, d1)" "length a1 = length tys" by blast
  from query_total [OF 1(2), of cfg req] obtain a2 d2 where
    2: "assembleArgsFromQueryParams cfg (int (length tys)) tys req a1 = Some (a2, d2)"
      "length a2 = length tys" by blast
  from body_total [OF 2(2), of cfg req] obtain a3 d3 where
    3: "assembleArgsFromBody cfg tys req a2 = Some (a3, d3)" "length a3 = length tys"
    by blast
  from headers_total [OF 3(2), of cfg req] obtain a4 d4 where
    4: "assembleArgsFromHeaders cfg req (int (length tys)) tys a3 = Some (a4, d4)"
      "length a4 = length tys" by blast
  from 1 2 3 4 have "getArgsFromRequest req tys cfg = Some (a4, d1 @ d2 @ d3 @ d4)"
    by (simp add: getArgsFromRequest_def)
  with 1 2 3 4 show ?thesis by blast
qed

section \<open>Indices outside the signature\<close>





section \<open>Length, zero values and the order of the passes\<close>





section \<open>A body slot of pointer-to-struct type\<close>

text \<open>
  C5, as stated, says that after a failed decode the slot holds a fresh zero instance of
  the type. The fresh instance made by \<^verbatim>\<open>reflect.New\<close> is only the decoding target; it is
  stored when decoding succeeds and dropped otherwise, so the slot keeps the zero value of
  its declared pointer type, the nil pointer.
\<close>

theorem failed_decode_leaves_nil_pointer:
  "getArgsFromRequest example_request [TPtr (TStruct ''main'' ''User'')]
     \<lparr>PathParamsMap = [], QueryParamsMap = [], HeadersMap = [], Body = 0\<rparr>
   = Some ([VNilPtr (TStruct ''main'' ''User'')],
           [Errorf SBody (ReadFailed (ReadError ''unexpected EOF''))])
   \<and> VNilPtr (TStruct ''main'' ''User'') \<noteq> new_instance (TStruct ''main'' ''User'')"
  by (simp add: typed_defs example_defs)

lemma body_target_struct: "body_target (TStruct p n) = new_instance (TStruct p n)"
  using struct_name_neq [of p n] by (simp add: body_target_def del: type_String.simps)

text \<open>
  C5, amended. For a body index inside the signature whose declared type is a pointer to
  a struct type, the typed convention returns, and: when the body decodes, the slot holds
  the decoded value; when decoding fails, the slot holds the nil pointer of its declared
  type and the failure is among the diagnostics; in both cases the header pass has run
  afterwards, each header entry for a slot of (unwrapped) kind String having written its
  header value.
\<close>

theorem body_pointer_to_struct_slot:
  assumes rng: "0 \<le> Body methodConfig" "Body methodConfig < int (length argsTypes)"
    and ty: "argsTypes ! nat (Body methodConfig) = TPtr (TStruct p n)"
  shows "\<exists>args d.
     getArgsFromRequest req argsTypes methodConfig = Some (args, d)
     \<and> (case ReadEntity req (new_instance (TStruct p n)) of
          Inr w \<Rightarrow> args ! nat (Body methodConfig) = w
        | Inl e \<Rightarrow> args ! nat (Body methodConfig) = VNilPtr (TStruct p n)
                   \<and> Errorf SBody (ReadFailed e) \<in> set d)
     \<and> (distinct (map fst (HeadersMap methodConfig)) \<longrightarrow>
          (\<forall>(k, v)\<in>set (HeadersMap methodConfig).
             0 \<le> k \<and> k < int (length argsTypes)
             \<and> Kind (deref (argsTypes ! nat k)) = KString
             \<longrightarrow> args ! nat k = VStr (HeaderParameter req v)))"
proof -
  let ?n = "int (length argsTypes)"
  let ?z = "map zero_value argsTypes"
  let ?b = "nat (Body methodConfig)"
  from typed_passes [of methodConfig argsTypes req] obtain a1 d1 a2 d2 a3 d3 a4 d4 where
    p: "assembleArgsFromPathParams methodConfig ?n argsTypes req ?z = Some (a1, d1)"
    and l1: "length a1 = length argsTypes"
    and q: "assembleArgsFromQueryParams methodConfig ?n argsTypes req a1 = Some (a2, d2)"
    and l2: "length a2 = length argsTypes"
    and b: "assembleArgsFromBody methodConfig argsTypes req a2 = Some (a3, d3)"
    and l3: "length a3 = length argsTypes"
    and h: "assembleArgsFromHeaders methodConfig req ?n argsTypes a3 = Some (a4, d4)"
    and r: "getArgsFromRequest req argsTypes methodConfig = Some (a4, d1 @ d2 @ d3 @ d4)"
    by blast
  have l0: "length ?z = length argsTypes" by simp
  from rng have bl: "?b < length argsTypes" by simp
  from ty have kp: "Kind (argsTypes ! ?b) = KPtr" by simp
  from ty have tgt: "body_target (deref (argsTypes ! ?b)) = new_instance (TStruct p n)"
    by (simp add: body_target_struct)
  from kp path_frame [OF l0, of ?b methodConfig req] p have "a1 ! ?b = ?z ! ?b" by auto
  with bl ty have s1: "a1 ! ?b = VNilPtr (TStruct p n)" by simp
  from kp query_frame [OF l1, of ?b methodConfig req] q have "a2 ! ?b = a1 ! ?b" by auto
  with s1 have s2: "a2 ! ?b = VNilPtr (TStruct p n)" by simp
  from ty have "Kind (deref (argsTypes ! ?b)) \<noteq> KString" by simp
  with headers_frame [OF l3, of ?b methodConfig req] h have s4: "a4 ! ?b = a3 ! ?b" by auto
  have body: "case ReadEntity req (new_instance (TStruct p n)) of
      Inr w \<Rightarrow> a4 ! ?b = w
    | Inl e \<Rightarrow> a4 ! ?b = VNilPtr (TStruct p n)
               \<and> Errorf SBody (ReadFailed e) \<in> set (d1 @ d2 @ d3 @ d4)"
  proof (cases "ReadEntity req (new_instance (TStruct p n))")
    case (Inl e)
    with body_fail [OF rng, of req e a2] tgt b have "a3 = a2" "d3 = [Errorf SBody (ReadFailed e)]"
      by simp_all
    with s2 s4 Inl show ?thesis by simp
  next
    case (Inr w)
    with body_write [OF rng l2, of req w] tgt b have "a3 = a2[?b := w]" by simp
    with bl l2 s4 Inr show ?thesis by simp
  qed
  have hw: "distinct (map fst (HeadersMap methodConfig)) \<longrightarrow>
      (\<forall>(k, v)\<in>set (HeadersMap methodConfig).
         0 \<le> k \<and> k < ?n \<and> Kind (deref (argsTypes ! nat k)) = KString
         \<longrightarrow> a4 ! nat k = VStr (HeaderParameter req v))"
    using headers_write [OF l3, of methodConfig _ _ req] h by fastforce
  from r body hw show ?thesis by blast
qed

theorem body_pointer_to_struct_slot_witness:
  "getArgsFromRequest example_request_with_body [TPtr (TStruct ''main'' ''User''), TString]
     \<lparr>PathParamsMap = [], QueryParamsMap = [], HeadersMap = [(1, ''h'')], Body = 0\<rparr>
   = Some ([example_user, VStr ''tok''], [])
   \<and> getArgsFromRequest example_request [TPtr (TStruct ''main'' ''User''), TString]
     \<lparr>PathParamsMap = [], QueryParamsMap = [], HeadersMap = [(1, ''h'')], Body = 0\<rparr>
   = Some ([VNilPtr (TStruct ''main'' ''User''), VStr ''tok''],
           [Errorf SBody (ReadFailed (ReadError ''unexpected EOF''))])"
  using body_pointer_to_struct_slot [of
      "\<lparr>PathParamsMap = [], QueryParamsMap = [], HeadersMap = [(1, ''h'')], Body = 0\<rparr>"
      "[TPtr (TStruct ''main'' ''User''), TString]" "''main''" "''User''"
      example_request_with_body]
    body_pointer_to_struct_slot [of
      "\<lparr>PathParamsMap = [], QueryParamsMap = [], HeadersMap = [(1, ''h'')], Body = 0\<rparr>"
      "[TPtr (TStruct ''main'' ''User''), TString]" "''main''" "''User''"
      example_request]
  by (simp add: typed_defs example_defs)

section \<open>Negative indices in the generic convention\<close>
















text \<open>
  For instance, with path \<open>{0: id, -3: id}\<close>, query \<open>{-1: n, 2: s}\<close> and header
  \<open>{-7: h}\<close> the list has three elements, the middle one being the untyped nil value.
\<close>

lemma generic_example:
  "getArgsInterfaceFromRequest example_request
     \<lparr>PathParamsMap = [(0, ''id''), (- 3, ''id'')], QueryParamsMap = [(- 1, ''n''), (2, ''s'')],
      HeadersMap = [(- 7, ''h'')], Body = - 1\<rparr>
   = Some ([VStr ''42'', VNil, VStr ''x''], [])"
  by (simp add: generic_defs example_defs eval_nat_numeral)

end
